theory Spec2Isabelle
  imports Main "HOL-Library.AList" "HOL-Library.Sublist"
begin

section \<open>Strings and the regular expressions the handlers use\<close>

text \<open>
  The server is Python 2.7: a \<^verbatim>\<open>str\<close> is a byte string, modelled as \<^typ>\<open>string\<close>.
  The four patterns given to \<^verbatim>\<open>re.sub\<close> in \<^verbatim>\<open>do_get_task\<close> are
  \<^verbatim>\<open>'.fits'\<close>, \<^verbatim>\<open>'LE1_VIS'\<close>, \<^verbatim>\<open>'LE1-VIS'\<close> and \<^verbatim>\<open>'.json'\<close>. Their only
  metacharacter is the dot, which matches every character but a newline; every other
  character of these patterns stands for itself.
\<close>

datatype pat_item = Any_char | Lit char

definition newline :: char where
  "newline = CHR 0x0A"

definition carriage_return :: char where
  "carriage_return = CHR 0x0D"

definition compile_pat :: "string \<Rightarrow> pat_item list" where
  "compile_pat p = map (\<lambda>c. if c = CHR ''.'' then Any_char else Lit c) p"

fun match_here :: "pat_item list \<Rightarrow> string \<Rightarrow> bool" where
  "match_here [] s = True"
| "match_here (p # ps) [] = False"
| "match_here (Any_char # ps) (c # cs) = (c \<noteq> newline \<and> match_here ps cs)"
| "match_here (Lit a # ps) (c # cs) = (a = c \<and> match_here ps cs)"

text \<open>
  \<^verbatim>\<open>re.sub(pattern, repl, s)\<close> for a pattern of fixed, non-zero length: scan from the
  left; where the pattern matches, emit the replacement and go on after the match; elsewhere
  copy one character.
\<close>

function re_sub_items :: "pat_item list \<Rightarrow> string \<Rightarrow> string \<Rightarrow> string" where
  "re_sub_items ps repl [] = []"
| "re_sub_items ps repl (c # cs) =
     (if ps \<noteq> [] \<and> match_here ps (c # cs)
      then repl @ re_sub_items ps repl (drop (length ps) (c # cs))
      else c # re_sub_items ps repl cs)"
  by pat_completeness auto
termination
  by (relation "measure (\<lambda>(ps, repl, s). length s)") (auto simp: neq_Nil_conv)

definition re_sub :: "string \<Rightarrow> string \<Rightarrow> string \<Rightarrow> string" where
  "re_sub pattern repl s = re_sub_items (compile_pat pattern) repl s"

section \<open>Task derivation in \<^verbatim>\<open>do_get_task\<close>\<close>

text \<open>Lines 258 and 259 of \<^verbatim>\<open>test-dataserver.py\<close>.\<close>

definition out_file_of :: "string \<Rightarrow> string" where
  "out_file_of in_file = re_sub ''.fits'' ''.json'' (re_sub ''LE1_VIS'' ''QLA_LE1-VIS'' in_file)"

definition log_file_of :: "string \<Rightarrow> string" where
  "log_file_of out_file = re_sub ''.json'' ''.log'' (re_sub ''LE1-VIS'' ''LE1-VIS-LOG'' out_file)"

text \<open>Line 234 of \<^verbatim>\<open>orig/webserver2.py\<close>; its line 233 is line 258 above.\<close>

definition orig_log_file_of :: "string \<Rightarrow> string" where
  "orig_log_file_of out_file = re_sub ''.json'' ''.log'' (re_sub ''LE1_VIS'' ''LE1-VIS-LOG'' out_file)"

section \<open>The collaborators: clock, directory listing, file system\<close>

text \<open>
  \<^verbatim>\<open>time.gmtime\<close> and \<^verbatim>\<open>time.strftime\<close> belong to the Python library. The clock is
  read in whole seconds since the epoch (\<^verbatim>\<open>gmtime\<close> drops the fraction), and the two
  format strings of the source only use \<^verbatim>\<open>%Y %m %d %H %M %S\<close>.
\<close>

record struct_time =
  tm_year :: int
  tm_mon :: int
  tm_mday :: int
  tm_hour :: int
  tm_min :: int
  tm_sec :: int

definition gmtime :: "int \<Rightarrow> struct_time" where
  "gmtime t =
     (let days = t div 86400; secs = t mod 86400;
          z = days + 719468;
          era = z div 146097; doe = z mod 146097;
          yoe = (doe - doe div 1460 + doe div 36524 - doe div 146096) div 365;
          doy = doe - (365 * yoe + yoe div 4 - yoe div 100);
          mp = (5 * doy + 2) div 153;
          d = doy - (153 * mp + 2) div 5 + 1;
          m = (if mp < 10 then mp + 3 else mp - 9);
          y = yoe + era * 400 + (if m \<le> 2 then 1 else 0)
      in \<lparr>tm_year = y, tm_mon = m, tm_mday = d,
          tm_hour = secs div 3600, tm_min = (secs mod 3600) div 60, tm_sec = secs mod 60\<rparr>)"

definition digit_char :: "nat \<Rightarrow> char" where
  "digit_char d = char_of (48 + d)"

function str_nat :: "nat \<Rightarrow> string" where
  "str_nat n = (if n < 10 then [digit_char n] else str_nat (n div 10) @ [digit_char (n mod 10)])"
  by pat_completeness auto
termination
  by (relation "measure id") auto

declare str_nat.simps [simp del]

definition str_int :: "int \<Rightarrow> string" where
  "str_int i = (if i < 0 then CHR ''-'' # str_nat (nat (- i)) else str_nat (nat i))"

definition pad2 :: "int \<Rightarrow> string" where
  "pad2 i = (if 0 \<le> i \<and> i < 10 then CHR ''0'' # str_int i else str_int i)"

text \<open>\<^verbatim>\<open>strftime("%Y%m%dT%H%M%S", tm)\<close> and \<^verbatim>\<open>strftime("QDTsrv_%Y%m%d-%H%M%S", tm)\<close>.\<close>

definition strftime_tag :: "struct_time \<Rightarrow> string" where
  "strftime_tag tm =
     str_int (tm_year tm) @ pad2 (tm_mon tm) @ pad2 (tm_mday tm) @ ''T'' @
     pad2 (tm_hour tm) @ pad2 (tm_min tm) @ pad2 (tm_sec tm)"

definition strftime_task_id :: "struct_time \<Rightarrow> string" where
  "strftime_task_id tm =
     ''QDTsrv_'' @ str_int (tm_year tm) @ pad2 (tm_mon tm) @ pad2 (tm_mday tm) @ ''-'' @
     pad2 (tm_hour tm) @ pad2 (tm_min tm) @ pad2 (tm_sec tm)"

text \<open>
  What the process cannot decide: \<open>clock k\<close> is the reading of the \<open>k\<close>-th call of
  \<^verbatim>\<open>time()\<close> or \<^verbatim>\<open>gmtime()\<close>, and \<open>glob_at k pattern\<close> is the list that the \<open>k\<close>-th call
  of \<^verbatim>\<open>glob.glob(pattern)\<close> returns (other processes put files into the input
  directory between two calls).
\<close>

record env =
  clock :: "nat \<Rightarrow> int"
  glob_at :: "nat \<Rightarrow> string \<Rightarrow> string list"

datatype py_error = IndexError | KeyError string | OSError | IOError

datatype file_content = Bytes string | Dummy_FITS

text \<open>
  The class attributes of \<^verbatim>\<open>QLARqstHandler\<close> that the task handlers read and write,
  \<^verbatim>\<open>m_opts.rootdir\<close>, the files and directories on disk (by path, as the handlers name
  them; paths are not normalised), and how many times the clock and the directory listing
  have been asked. A Python \<^verbatim>\<open>dict\<close> is an association list with one entry per key.
\<close>

record state =
  rootdir :: string
  generate_dummy_files :: bool
  pool_of_files :: "string list"
  obs_id :: int
  task_inputs :: "(string \<times> string) list"
  current_file :: string
  fs_files :: "(string \<times> file_content) list"
  fs_dirs :: "string set"
  clock_calls :: nat
  glob_calls :: nat

definition input_files_dir :: string where
  "input_files_dir = ''input''"

definition processed_files_dir :: string where
  "processed_files_dir = ''processed''"

text \<open>
  A handler either returns or raises; the class attributes and the disk keep what was done
  before the exception, so both outcomes carry the state.
\<close>

datatype 'a outcome = Raise py_error state | Return 'a state

text \<open>The text before the last slash, and the text after it (\<^verbatim>\<open>os.path.basename\<close>).\<close>

definition dirname :: "string \<Rightarrow> string" where
  "dirname p = rev (tl (dropWhile (\<lambda>c. c \<noteq> CHR ''/'') (rev p)))"

definition basename :: "string \<Rightarrow> string" where
  "basename p = rev (takeWhile (\<lambda>c. c \<noteq> CHR ''/'') (rev p))"

text \<open>
  Creating or truncating a file for writing (\<^verbatim>\<open>open(fn, 'wb')\<close>, \<^verbatim>\<open>hdu.writeto\<close>
  with \<^verbatim>\<open>clobber=True\<close>) fails when the directory is missing or the path is a directory.
\<close>

definition can_create :: "state \<Rightarrow> string \<Rightarrow> bool" where
  "can_create st p = (dirname p \<in> fs_dirs st \<and> p \<notin> fs_dirs st)"

definition write_file :: "string \<Rightarrow> file_content \<Rightarrow> state \<Rightarrow> state" where
  "write_file p c st = st\<lparr>fs_files := AList.update p c (fs_files st)\<rparr>"

text \<open>
  \<^verbatim>\<open>os.rename(src, dst)\<close>: the source must exist and the directory of the destination
  too; an existing destination file is replaced.
\<close>

definition os_rename :: "string \<Rightarrow> string \<Rightarrow> state \<Rightarrow> unit outcome" where
  "os_rename src dst st =
     (case map_of (fs_files st) src of
        None \<Rightarrow> Raise OSError st
      | Some c \<Rightarrow>
          if \<not> can_create st dst then Raise OSError st
          else if src = dst then Return () st
          else Return () (st\<lparr>fs_files := AList.update dst c (AList.delete src (fs_files st))\<rparr>))"

section \<open>The file pool source: \<^verbatim>\<open>get_new_input_files\<close>\<close>

text \<open>
  \<^verbatim>\<open>create_dummy_file(file_name)\<close> writes a FITS file at
  \<^verbatim>\<open>rootdir + "/" + file_name\<close>, replacing an older one.
\<close>

definition create_dummy_file :: "string \<Rightarrow> state \<Rightarrow> unit outcome" where
  "create_dummy_file file_name st =
     (let full_file_name = rootdir st @ ''/'' @ file_name
      in if can_create st full_file_name
         then Return () (write_file full_file_name Dummy_FITS st)
         else Raise IOError st)"

text \<open>
  The body of the two nested \<^verbatim>\<open>for\<close> loops of the synthetic mode (lines 200 to 207):
  the name is appended to the pool before the file is created, and \<^verbatim>\<open>obs_id\<close> grows
  after it.
\<close>

definition dummy_body :: "env \<Rightarrow> int \<Rightarrow> int \<Rightarrow> state \<Rightarrow> unit outcome" where
  "dummy_body e x dither st =
     (let datetime_tag = strftime_tag (gmtime (clock e (clock_calls st) + 100000000 + x * 100));
          file_name = ''EUC_LE1_VIS-W-'' @ str_int (obs_id st) @ ''-'' @ str_int dither @ ''_'' @
                      datetime_tag @ ''.0Z.fits'';
          st1 = st\<lparr>clock_calls := Suc (clock_calls st),
                    pool_of_files := pool_of_files st @ [file_name]\<rparr>
      in case create_dummy_file (input_files_dir @ ''/'' @ file_name) st1 of
           Raise err st2 \<Rightarrow> Raise err st2
         | Return u st2 \<Rightarrow> Return () (st2\<lparr>obs_id := obs_id st2 + 1\<rparr>))"

fun dither_loop :: "env \<Rightarrow> int \<Rightarrow> int list \<Rightarrow> state \<Rightarrow> unit outcome" where
  "dither_loop e x [] st = Return () st"
| "dither_loop e x (dither # ds) st =
     (case dummy_body e x dither st of
        Raise err st1 \<Rightarrow> Raise err st1
      | Return u st1 \<Rightarrow> dither_loop e x ds st1)"

fun x_loop :: "env \<Rightarrow> int list \<Rightarrow> state \<Rightarrow> unit outcome" where
  "x_loop e [] st = Return () st"
| "x_loop e (x # xs) st =
     (case dither_loop e x [1, 2, 3, 4] st of
        Raise err st1 \<Rightarrow> Raise err st1
      | Return u st1 \<Rightarrow> x_loop e xs st1)"

text \<open>
  The directory-scan mode (lines 211 to 216): \<^verbatim>\<open>while len(pool) < 1\<close> lists the input
  directory again and again. The loop has no bound, so its model is a partial function:
  \<open>None\<close> is the run that never leaves the loop.
\<close>

definition glob_pattern :: "state \<Rightarrow> string" where
  "glob_pattern st = rootdir st @ ''/'' @ input_files_dir @ ''/*.fits''"

definition scan_once :: "env \<Rightarrow> state \<Rightarrow> state" where
  "scan_once e st =
     st\<lparr>pool_of_files :=
          pool_of_files st @ map basename (glob_at e (glob_calls st) (glob_pattern st)),
        glob_calls := Suc (glob_calls st)\<rparr>"

partial_function (option) scan_loop :: "env \<Rightarrow> state \<Rightarrow> state option" where
  "scan_loop e st =
     (if length (pool_of_files st) < 1 then scan_loop e (scan_once e st) else Some st)"

declare scan_loop.simps [code]

text \<open>
  The only call of \<^verbatim>\<open>get_new_input_files(pool)\<close> passes the class attribute
  \<^verbatim>\<open>pool_of_files\<close>, so the parameter and the attribute are one list.
\<close>

definition get_new_input_files :: "env \<Rightarrow> state \<Rightarrow> unit outcome option" where
  "get_new_input_files e st =
     (if generate_dummy_files st
      then Some (x_loop e [0, 1, 2, 3, 4, 5, 6, 7, 8, 9] st)
      else map_option (Return ()) (scan_loop e st))"

section \<open>The task dispatcher: \<^verbatim>\<open>do_get_task\<close> and \<^verbatim>\<open>do_end_task\<close>\<close>

record task_params =
  task_id :: string
  in_file :: string
  out_file :: string
  log_file :: string
  retrieve_path :: string

datatype payload = No_body | Json_body task_params

text \<open>
  What a handler puts on the wire: the status line, the headers it adds itself, whether it
  ended the header block, and the body. \<^verbatim>\<open>send_content\<close> takes a \<^verbatim>\<open>code\<close> and sends
  200 whatever it is.
\<close>

record response =
  status :: nat
  headers :: "(string \<times> string) list"
  headers_ended :: bool
  body :: payload

definition send_content :: "nat \<Rightarrow> string \<Rightarrow> bool \<Rightarrow> response" where
  "send_content code mimetype more_headers =
     \<lparr>status = 200,
      headers = (if length mimetype > 0 then [(''Content-type'', mimetype)] else []),
      headers_ended = (length mimetype > 0 \<and> \<not> more_headers),
      body = No_body\<rparr>"

text \<open>
  Lines 258 to 270: the descriptor of the task for the popped file \<open>f\<close>, the clock
  reading \<open>t\<close> going into the identifier.
\<close>

definition derive_task :: "int \<Rightarrow> string \<Rightarrow> task_params" where
  "derive_task t f =
     (let out = out_file_of f;
          lg = log_file_of out;
          new_task_id = strftime_task_id (gmtime t)
      in \<lparr>task_id = new_task_id, in_file = f, out_file = out, log_file = lg,
          retrieve_path = input_files_dir\<rparr>)"

text \<open>The same lines of \<^verbatim>\<open>orig/webserver2.py\<close> (233 to 242).\<close>

definition orig_derive_task :: "int \<Rightarrow> string \<Rightarrow> task_params" where
  "orig_derive_task t f =
     (let out = out_file_of f;
          lg = orig_log_file_of out;
          new_task_id = strftime_task_id (gmtime t)
      in \<lparr>task_id = new_task_id, in_file = f, out_file = out, log_file = lg,
          retrieve_path = input_files_dir\<rparr>)"

text \<open>Lines 257 to 277, from \<^verbatim>\<open>pool_of_files.pop(0)\<close> on.\<close>

definition issue_task :: "env \<Rightarrow> state \<Rightarrow> response outcome" where
  "issue_task e st =
     (case pool_of_files st of
        [] \<Rightarrow> Raise IndexError st
      | f # rest \<Rightarrow>
          (let params = derive_task (clock e (clock_calls st)) f;
               st1 = st\<lparr>pool_of_files := rest,
                         clock_calls := Suc (clock_calls st),
                         current_file := f,
                         task_inputs := AList.update (task_id params) f (task_inputs st)\<rparr>
           in Return ((send_content 200 ''application/json'' False)\<lparr>body := Json_body params\<rparr>)
                     st1))"

definition do_get_task :: "env \<Rightarrow> state \<Rightarrow> response outcome option" where
  "do_get_task e st =
     (if length (pool_of_files st) < 1
      then (case get_new_input_files e st of
              None \<Rightarrow> None
            | Some (Raise err st1) \<Rightarrow> Some (Raise err st1)
            | Some (Return u st1) \<Rightarrow> Some (issue_task e st1))
      else Some (issue_task e st))"

definition do_end_task :: "string \<Rightarrow> state \<Rightarrow> response outcome" where
  "do_end_task tid st =
     (case map_of (task_inputs st) tid of
        None \<Rightarrow> Raise (KeyError tid) st
      | Some task_file \<Rightarrow>
          (let from_file = ''./'' @ input_files_dir @ ''/'' @ task_file;
               to_file = ''./'' @ processed_files_dir @ ''/'' @ task_file
           in case os_rename from_file to_file st of
                Raise err st1 \<Rightarrow> Raise err st1
              | Return u st1 \<Rightarrow> Return (send_content 200 ''text/html'' False) st1))"

text \<open>
  A run of \<open>n\<close> \<^verbatim>\<open>GET /get_task\<close> requests served one after another. A request
  that raises ends alone; the next one finds the class attributes as the failed one left
  them.
\<close>

fun state_of :: "'a outcome \<Rightarrow> state" where
  "state_of (Raise err st) = st"
| "state_of (Return v st) = st"

fun given_file :: "response outcome \<Rightarrow> string option" where
  "given_file (Raise err st) = None"
| "given_file (Return r st) = (case body r of No_body \<Rightarrow> None | Json_body p \<Rightarrow> Some (in_file p))"

fun get_task_calls :: "env \<Rightarrow> nat \<Rightarrow> state \<Rightarrow> (response outcome list \<times> state) option" where
  "get_task_calls e 0 st = Some ([], st)"
| "get_task_calls e (Suc n) st =
     (case do_get_task e st of
        None \<Rightarrow> None
      | Some oc \<Rightarrow>
          (case get_task_calls e n (state_of oc) of
             None \<Rightarrow> None
           | Some (ocs, st') \<Rightarrow> Some (oc # ocs, st')))"

text \<open>
  What the specification asks of a failing \<^verbatim>\<open>end_task\<close>: a response with an error
  status, not an exception that leaves the handler.
\<close>

fun explicit_error_response :: "response outcome \<Rightarrow> bool" where
  "explicit_error_response (Raise err st) = False"
| "explicit_error_response (Return r st) = (400 \<le> status r)"

section \<open>The upload parser: \<^verbatim>\<open>deal_post_data\<close>\<close>

text \<open>
  \<^verbatim>\<open>rfile.readline()\<close> returns the bytes up to and including the next newline, or what is
  left when there is none; at the end of the stream it returns the empty string.
\<close>

definition readline :: "string \<Rightarrow> string \<times> string" where
  "readline s =
     (case dropWhile (\<lambda>c. c \<noteq> newline) s of
        [] \<Rightarrow> (s, [])
      | c # rest \<Rightarrow> (takeWhile (\<lambda>c. c \<noteq> newline) s @ [c], rest))"

text \<open>\<^verbatim>\<open>b in line\<close> on strings: \<open>b\<close> occurs in \<open>line\<close> as a block.\<close>

fun contains :: "string \<Rightarrow> string \<Rightarrow> bool" where
  "contains b [] = (b = [])"
| "contains b (c # cs) = (prefix b (c # cs) \<or> contains b cs)"

text \<open>\<^verbatim>\<open>s.split(sep)\<close> for a separator of one character.\<close>

fun split_on :: "char \<Rightarrow> string \<Rightarrow> string list" where
  "split_on sep [] = [[]]"
| "split_on sep (c # cs) =
     (if c = sep then [] # split_on sep cs
      else (case split_on sep cs of [] \<Rightarrow> [[c]] | w # ws \<Rightarrow> (c # w) # ws))"

text \<open>
  \<^verbatim>\<open>re.findall(r'Content-Disposition.*name="file"; filename="(.*)"', line)\<close>, of which
  the handler uses whether it is empty and its first element: the group of the leftmost
  match. A dot does not match a newline, so a match lies in the text before the next
  newline. Both stars are greedy: the first one goes to the last place where
  \<^verbatim>\<open>name="file"; filename="\<close> stands with a double quote somewhere after it, the group
  then runs to the last double quote.
\<close>

definition dquote :: char where
  "dquote = CHR 0x22"

definition apostrophe :: char where
  "apostrophe = CHR 0x27"

definition filename_key :: string where
  "filename_key = ''name='' @ [dquote] @ ''file'' @ [dquote] @ ''; filename='' @ [dquote]"

definition group_before_last_quote :: "string \<Rightarrow> string option" where
  "group_before_last_quote u =
     (if dquote \<in> set u then Some (rev (tl (dropWhile (\<lambda>c. c \<noteq> dquote) (rev u)))) else None)"

definition key_here :: "string \<Rightarrow> string option" where
  "key_here u =
     (if prefix filename_key u then group_before_last_quote (drop (length filename_key) u)
      else None)"

fun greedy_key :: "string \<Rightarrow> string option" where
  "greedy_key [] = None"
| "greedy_key (c # cs) =
     (case greedy_key cs of Some g \<Rightarrow> Some g | None \<Rightarrow> key_here (c # cs))"

definition disposition_here :: "string \<Rightarrow> string option" where
  "disposition_here s =
     (if prefix ''Content-Disposition'' s
      then greedy_key (takeWhile (\<lambda>c. c \<noteq> newline) (drop (length ''Content-Disposition'') s))
      else None)"

fun find_filename :: "string \<Rightarrow> string option" where
  "find_filename [] = None"
| "find_filename (c # cs) =
     (case disposition_here (c # cs) of Some g \<Rightarrow> Some g | None \<Rightarrow> find_filename cs)"

text \<open>\<^verbatim>\<open>os.path.join(a, b)\<close> of \<^verbatim>\<open>posixpath\<close>, for two components.\<close>

definition path_join :: "string \<Rightarrow> string \<Rightarrow> string" where
  "path_join a b =
     (if prefix ''/'' b then b
      else if a = [] \<or> last a = CHR ''/'' then a @ b
      else a @ ''/'' @ b)"

text \<open>
  The request as the parser sees it: the parameter text of the \<^verbatim>\<open>Content-Type\<close> header
  (\<^verbatim>\<open>headers.plisttext\<close>), what \<^verbatim>\<open>int(self.headers['content-length'])\<close> evaluates to
  (a number, or the exception it raises for a missing or malformed header), the directory
  that \<^verbatim>\<open>translate_path(self.path)\<close> returns, and the bytes of the body stream up to its
  end.
\<close>

record request =
  plisttext :: string
  content_length :: "py_error + int"
  translated_path :: string
  rfile :: "string"

text \<open>Lines 462 to 464: the last character goes, then a carriage return at the end.\<close>

definition strip_pending :: "string \<Rightarrow> string" where
  "strip_pending preline =
     (let p = butlast preline
      in if p \<noteq> [] \<and> last p = carriage_return then butlast p else p)"

text \<open>
  The \<^verbatim>\<open>while remainbytes > 0\<close> loop (lines 458 to 471), with the bytes written to
  \<^verbatim>\<open>out\<close> so far. It returns whether the boundary was found, and the bytes written. A
  stream that ends before the declared length is used up keeps the loop reading empty
  lines for ever: \<open>None\<close>.
\<close>

partial_function (option) upload_loop ::
  "string \<Rightarrow> int \<Rightarrow> string \<Rightarrow> string \<Rightarrow> string \<Rightarrow> (bool \<times> string) option" where
  "upload_loop boundary remainbytes preline rf written =
     (if remainbytes > 0
      then (if contains boundary (fst (readline rf))
            then Some (True, written @ strip_pending preline)
            else upload_loop boundary (remainbytes - int (length (fst (readline rf))))
                   (fst (readline rf)) (snd (readline rf)) (written @ preline))
      else Some (False, written))"

declare upload_loop.simps [code]

definition boundary_of :: "request \<Rightarrow> py_error + string" where
  "boundary_of rq =
     (let parts = split_on CHR ''='' (plisttext rq)
      in if length parts < 2 then Inl IndexError else Inr (parts ! 1))"

definition msg_no_boundary :: string where
  "msg_no_boundary = ''Content NOT begin with boundary''"

definition msg_no_filename :: string where
  "msg_no_filename = ''Can'' @ [apostrophe] @ ''t find out file name...''"

definition msg_cannot_create :: string where
  "msg_cannot_create =
     ''Can'' @ [apostrophe] @ ''t create file to write, do you have permission to write?''"

definition msg_success :: "string \<Rightarrow> string" where
  "msg_success fn = ''File '' @ [apostrophe] @ fn @ [apostrophe] @ '' upload success!''"

definition msg_unexpected_end :: string where
  "msg_unexpected_end = ''Unexpect Ends of data.''"

text \<open>
  \<^verbatim>\<open>deal_post_data\<close> (lines 424 to 471). The file is created empty when it is opened, and
  holds what was written when the function returns, with or without \<^verbatim>\<open>out.close()\<close>.
  In the \<^verbatim>\<open>except IOError\<close> branch the look-up of the user's groups only feeds a debug
  message.
\<close>

definition deal_post_data :: "request \<Rightarrow> state \<Rightarrow> (bool \<times> string) outcome option" where
  "deal_post_data rq st =
     (case boundary_of rq of
        Inl err \<Rightarrow> Some (Raise err st)
      | Inr boundary \<Rightarrow>
     (case content_length rq of
        Inl err \<Rightarrow> Some (Raise err st)
      | Inr n \<Rightarrow>
     (let line1 = fst (readline (rfile rq)); rf1 = snd (readline (rfile rq));
          remain1 = n - int (length line1)
      in if \<not> contains boundary line1 then Some (Return (False, msg_no_boundary) st)
         else
     (let line2 = fst (readline rf1); rf2 = snd (readline rf1);
          remain2 = remain1 - int (length line2)
      in case find_filename line2 of
           None \<Rightarrow> Some (Return (False, msg_no_filename) st)
         | Some name \<Rightarrow>
     (let fn = path_join (translated_path rq) name;
          line3 = fst (readline rf2); rf3 = snd (readline rf2);
          remain3 = remain2 - int (length line3)
      in if \<not> can_create st fn then Some (Return (False, msg_cannot_create) st)
         else
     (let st1 = write_file fn (Bytes []) st;
          preline = fst (readline rf3); rf4 = snd (readline rf3);
          remain4 = remain3 - int (length preline)
      in case upload_loop boundary remain4 preline rf4 [] of
           None \<Rightarrow> None
         | Some (True, written) \<Rightarrow>
             Some (Return (True, msg_success fn) (write_file fn (Bytes written) st1))
         | Some (False, written) \<Rightarrow>
             Some (Return (False, msg_unexpected_end) (write_file fn (Bytes written) st1))))))))"

text \<open>
  The multipart body of the happy path, with boundary \<^verbatim>\<open>B\<close> and the matching
  \<^verbatim>\<open>Content-Length\<close> of 84 bytes.
\<close>

definition crlf :: string where
  "crlf = [carriage_return, newline]"

definition hello_body :: string where
  "hello_body =
     ''--B'' @ crlf @
     ''Content-Disposition: form-data; name='' @ [dquote] @ ''file'' @ [dquote] @
       ''; filename='' @ [dquote] @ ''a.txt'' @ [dquote] @ crlf @
     crlf @
     ''HELLO'' @ crlf @
     ''--B--'' @ crlf"

definition hello_request :: request where
  "hello_request =
     \<lparr>plisttext = ''; boundary=B'', content_length = Inr 84,
      translated_path = ''/srv/upload'', rfile = hello_body\<rparr>"

definition upload_state :: state where
  "upload_state =
     \<lparr>rootdir = ''/srv'', generate_dummy_files = False, pool_of_files = [], obs_id = 12000,
      task_inputs = [], current_file = [], fs_files = [], fs_dirs = {''/srv/upload''},
      clock_calls = 0, glob_calls = 0\<rparr>"

text \<open>
  The lines that \<^verbatim>\<open>readline\<close> hands out from a stream while a byte count is not used
  up and the stream has not ended.
\<close>

function lines_upto :: "int \<Rightarrow> string \<Rightarrow> string list" where
  "lines_upto remain rf =
     (if remain > 0 \<and> rf \<noteq> []
      then fst (readline rf) # lines_upto (remain - int (length (fst (readline rf)))) (snd (readline rf))
      else [])"
  by pat_completeness auto
termination
proof (relation "measure (\<lambda>(remain, rf). length rf)")
  show "wf (measure (\<lambda>(remain :: int, rf :: string). length rf))"
    by simp
next
  fix remain :: int and rf :: string
  assume a: "0 < remain \<and> rf \<noteq> []"
  have "length (dropWhile (\<lambda>c. c \<noteq> newline) rf) \<le> length rf"
    by (rule length_dropWhile_le)
  with a have "length (snd (readline rf)) < length rf"
    by (auto simp: readline_def split: list.splits)
  then show "((remain - int (length (fst (readline rf))), snd (readline rf)), (remain, rf))
              \<in> measure (\<lambda>(remain, rf). length rf)"
    by simp
qed

declare lines_upto.simps [simp del]

text \<open>The stream after \<open>k\<close> calls of \<^verbatim>\<open>readline\<close>.\<close>

fun after_lines :: "nat \<Rightarrow> string \<Rightarrow> string" where
  "after_lines 0 s = s"
| "after_lines (Suc k) s = after_lines k (snd (readline s))"

text \<open>
  A body of two data lines whose declared length of 78 bytes ends in the first character
  of the second one.
\<close>

definition short_request :: request where
  "short_request =
     \<lparr>plisttext = ''; boundary=B'', content_length = Inr 78,
      translated_path = ''/srv/upload'',
      rfile =
        ''--B'' @ crlf @
        ''Content-Disposition: form-data; name='' @ [dquote] @ ''file'' @ [dquote] @
          ''; filename='' @ [dquote] @ ''a.txt'' @ [dquote] @ crlf @
        crlf @
        ''HELLO'' @ crlf @
        ''WORLD'' @ crlf @
        ''--B--'' @ crlf\<rparr>"

section \<open>Sample inputs\<close>

text \<open>
  A clock that advances by one second per reading, an input directory that is empty for
  two listings and then holds two files, and a server with two files in the pool, one task
  issued and its file on disk.
\<close>

definition demo_env :: env where
  "demo_env =
     \<lparr>clock = (\<lambda>k. 1600000000 + int k),
      glob_at = (\<lambda>k pattern. if k < 2 then [] else [''/srv/input/a.fits'', ''/srv/input/b.fits''])\<rparr>"

definition demo_state :: state where
  "demo_state =
     \<lparr>rootdir = ''/srv'', generate_dummy_files = False,
      pool_of_files = [''a.fits'', ''b.fits''], obs_id = 12000,
      task_inputs = [(''QDTsrv_20200913-122640'', ''z.fits'')], current_file = ''z.fits'',
      fs_files = [(''./input/z.fits'', Bytes ''FITS'')],
      fs_dirs = {''./input'', ''./processed'', ''/srv/input''},
      clock_calls = 0, glob_calls = 0\<rparr>"

section \<open>Properties\<close>

subsection \<open>Issuing tasks\<close>

lemma issue_task_Cons:
  "pool_of_files st = f # rest \<Longrightarrow>
   issue_task e st =
     Return ((send_content 200 ''application/json'' False)
               \<lparr>body := Json_body (derive_task (clock e (clock_calls st)) f)\<rparr>)
            (st\<lparr>pool_of_files := rest, clock_calls := Suc (clock_calls st), current_file := f,
                task_inputs := AList.update (task_id (derive_task (clock e (clock_calls st)) f)) f
                                 (task_inputs st)\<rparr>)"
  by (simp add: issue_task_def Let_def)

lemma do_get_task_nonempty:
  "pool_of_files st \<noteq> [] \<Longrightarrow> do_get_task e st = Some (issue_task e st)"
  by (cases "pool_of_files st") (simp_all add: do_get_task_def)

lemma in_file_derive_task: "in_file (derive_task t f) = f"
  by (simp add: derive_task_def Let_def)

text \<open>
  With a pool of \<open>xs\<close>, as many calls as \<open>xs\<close> has items hand the items out in the order
  of the pool and leave it empty; the directory is not listed and no file is made.
\<close>

lemma get_task_calls_pool:
  "pool_of_files st = xs \<Longrightarrow>
   \<exists>ocs st'. get_task_calls e (length xs) st = Some (ocs, st') \<and>
     map given_file ocs = map Some xs \<and> pool_of_files st' = [] \<and>
     glob_calls st' = glob_calls st \<and> obs_id st' = obs_id st \<and> fs_files st' = fs_files st"
proof (induction xs arbitrary: st)
  case Nil
  then show ?case by simp
next
  case (Cons f rest)
  let ?st1 = "st\<lparr>pool_of_files := rest, clock_calls := Suc (clock_calls st), current_file := f,
                task_inputs := AList.update (task_id (derive_task (clock e (clock_calls st)) f)) f
                                 (task_inputs st)\<rparr>"
  let ?oc = "issue_task e st"
  have oc: "?oc = Return ((send_content 200 ''application/json'' False)
               \<lparr>body := Json_body (derive_task (clock e (clock_calls st)) f)\<rparr>) ?st1"
    using Cons.prems by (rule issue_task_Cons)
  have call: "do_get_task e st = Some ?oc"
    using Cons.prems by (simp add: do_get_task_nonempty)
  have "pool_of_files ?st1 = rest" by simp
  from Cons.IH [OF this] obtain ocs st' where
    rest: "get_task_calls e (length rest) ?st1 = Some (ocs, st')"
      "map given_file ocs = map Some rest" "pool_of_files st' = []"
      "glob_calls st' = glob_calls ?st1" "obs_id st' = obs_id ?st1" "fs_files st' = fs_files ?st1"
    by blast
  have "get_task_calls e (length (f # rest)) st = Some (?oc # ocs, st')"
    using call rest(1) by (simp add: oc)
  moreover have "map given_file (?oc # ocs) = map Some (f # rest)"
    using rest(2) by (simp add: oc in_file_derive_task)
  ultimately show ?case
    using rest(3-6) by auto
qed

lemma count_list_distinct:
  "distinct xs \<Longrightarrow> w \<in> set xs \<Longrightarrow> count_list (map Some xs) (Some w) = 1"
  by (induction xs) (auto simp: count_list_0_iff)

text \<open>
  C1. Against a pool of \<open>N\<close> distinct work items, \<open>N\<close> calls of \<^verbatim>\<open>get_task\<close> served one
  after another all return, each of them hands out one item, in the order of the pool, every
  item of the pool goes to exactly one call, and the pool is empty afterwards. No refill
  takes place: the input directory is not listed, no dummy file is made.
\<close>

theorem sequential_issuance:
  assumes "distinct (pool_of_files st)"
  shows "\<exists>ocs st'. get_task_calls e (length (pool_of_files st)) st = Some (ocs, st') \<and>
           map given_file ocs = map Some (pool_of_files st) \<and>
           (\<forall>w \<in> set (pool_of_files st). count_list (map given_file ocs) (Some w) = 1) \<and>
           pool_of_files st' = [] \<and>
           glob_calls st' = glob_calls st \<and> obs_id st' = obs_id st \<and> fs_files st' = fs_files st"
proof -
  obtain ocs st' where r: "get_task_calls e (length (pool_of_files st)) st = Some (ocs, st')"
     "map given_file ocs = map Some (pool_of_files st)" "pool_of_files st' = []"
     "glob_calls st' = glob_calls st" "obs_id st' = obs_id st" "fs_files st' = fs_files st"
    using get_task_calls_pool [OF refl, where st = st and e = e] by blast
  have "\<forall>w \<in> set (pool_of_files st). count_list (map given_file ocs) (Some w) = 1"
    using assms r(2) by (simp add: count_list_distinct)
  with r show ?thesis by blast
qed

theorem sequential_issuance_witness:
  "distinct (pool_of_files demo_state) \<and>
   pool_of_files demo_state = [''a.fits'', ''b.fits''] \<and>
   (\<exists>ocs st'. get_task_calls demo_env (length (pool_of_files demo_state)) demo_state =
        Some (ocs, st') \<and>
      map given_file ocs = map Some (pool_of_files demo_state) \<and>
      pool_of_files st' = [])"
proof -
  have d: "distinct (pool_of_files demo_state)"
    by (simp add: demo_state_def)
  have p: "pool_of_files demo_state = [''a.fits'', ''b.fits'']"
    by (simp add: demo_state_def)
  from sequential_issuance [OF d, of demo_env] d p show ?thesis
    by blast
qed

subsection \<open>Refilling the pool\<close>

lemma scan_loop_nonempty:
  assumes "scan_loop e st = Some st'"
  shows "pool_of_files st' \<noteq> []"
  by (rule scan_loop.raw_induct [where P = "\<lambda>e st y. pool_of_files y \<noteq> []", OF _ assms])
     (auto split: if_splits)

lemma glob_pattern_scan_once: "glob_pattern (scan_once e st) = glob_pattern st"
  by (simp add: glob_pattern_def scan_once_def)

text \<open>
  The scan returns at the first listing that is not empty, with the base names of that
  listing as the pool.
\<close>

lemma scan_loop_finds:
  "pool_of_files st = [] \<Longrightarrow>
   (\<forall>j<n. glob_at e (glob_calls st + j) (glob_pattern st) = []) \<Longrightarrow>
   glob_at e (glob_calls st + n) (glob_pattern st) \<noteq> [] \<Longrightarrow>
   scan_loop e st =
     Some (st\<lparr>pool_of_files := map basename (glob_at e (glob_calls st + n) (glob_pattern st)),
               glob_calls := Suc (glob_calls st + n)\<rparr>)"
proof (induction n arbitrary: st)
  case 0
  then have "scan_loop e (scan_once e st) = Some (scan_once e st)"
    by (subst scan_loop.simps) (simp add: scan_once_def)
  with 0 show ?case
    by (subst scan_loop.simps) (simp add: scan_once_def)
next
  case (Suc n)
  from Suc.prems(2) have first: "glob_at e (glob_calls st) (glob_pattern st) = []"
    by (metis add.right_neutral zero_less_Suc)
  let ?st1 = "scan_once e st"
  have p1: "pool_of_files ?st1 = []"
    using Suc.prems(1) first by (simp add: scan_once_def)
  have g1: "glob_calls ?st1 = Suc (glob_calls st)"
    by (simp add: scan_once_def)
  have "\<forall>j<n. glob_at e (glob_calls ?st1 + j) (glob_pattern ?st1) = []"
    using Suc.prems(2) by (auto simp: g1 glob_pattern_scan_once)
  moreover have "glob_at e (glob_calls ?st1 + n) (glob_pattern ?st1) \<noteq> []"
    using Suc.prems(3) by (simp add: g1 glob_pattern_scan_once)
  ultimately have "scan_loop e ?st1 =
     Some (?st1\<lparr>pool_of_files := map basename (glob_at e (glob_calls ?st1 + n) (glob_pattern ?st1)),
               glob_calls := Suc (glob_calls ?st1 + n)\<rparr>)"
    using Suc.IH [OF p1] by blast
  then have "scan_loop e ?st1 =
     Some (?st1\<lparr>pool_of_files := map basename (glob_at e (Suc (glob_calls st + n)) (glob_pattern st)),
               glob_calls := Suc (Suc (glob_calls st + n))\<rparr>)"
    by (simp add: g1 glob_pattern_scan_once)
  moreover have "scan_loop e st = scan_loop e ?st1"
    using Suc.prems(1) by (subst scan_loop.simps) simp
  ultimately show ?case
    using first by (simp add: scan_once_def)
qed

text \<open>While the input directory stays empty the scan does not return.\<close>

lemma scan_loop_never_returns:
  assumes "pool_of_files st = []" and "\<forall>k. glob_at e k (glob_pattern st) = []"
  shows "scan_loop e st = None"
proof (rule ccontr)
  assume "scan_loop e st \<noteq> None"
  then obtain st' where r: "scan_loop e st = Some st'" by blast
  have "\<not> (pool_of_files st = [] \<and> (\<forall>k. glob_at e k (glob_pattern st) = []))"
  proof (rule scan_loop.raw_induct
      [where P = "\<lambda>e st y. \<not> (pool_of_files st = [] \<and> (\<forall>k. glob_at e k (glob_pattern st) = []))",
       OF _ r])
    fix loop :: "env \<Rightarrow> state \<Rightarrow> state option" and e st st'
    assume IH: "\<And>e st y. loop e st = Some y \<Longrightarrow>
                  \<not> (pool_of_files st = [] \<and> (\<forall>k. glob_at e k (glob_pattern st) = []))"
      and step: "(if length (pool_of_files st) < 1 then loop e (scan_once e st) else Some st) = Some st'"
    show "\<not> (pool_of_files st = [] \<and> (\<forall>k. glob_at e k (glob_pattern st) = []))"
    proof
      assume a: "pool_of_files st = [] \<and> (\<forall>k. glob_at e k (glob_pattern st) = [])"
      then have "loop e (scan_once e st) = Some st'"
        using step by simp
      from IH [OF this] have "\<not> (pool_of_files (scan_once e st) = [] \<and>
            (\<forall>k. glob_at e k (glob_pattern st) = []))"
        by (simp add: glob_pattern_scan_once)
      moreover have "pool_of_files (scan_once e st) = []"
        using a by (simp add: scan_once_def)
      ultimately show False using a by simp
    qed
  qed
  with assms show False by simp
qed

lemma create_dummy_file_keeps:
  "create_dummy_file name st = Return u st' \<Longrightarrow>
   pool_of_files st' = pool_of_files st \<and> obs_id st' = obs_id st"
  by (auto simp: create_dummy_file_def Let_def write_file_def split: if_splits)

lemma dummy_body_grows:
  "dummy_body e x d st = Return u st' \<Longrightarrow>
   length (pool_of_files st') = Suc (length (pool_of_files st)) \<and> obs_id st' = obs_id st + 1"
  by (auto simp: dummy_body_def Let_def split: outcome.splits dest!: create_dummy_file_keeps)

lemma dither_loop_grows:
  "dither_loop e x ds st = Return u st' \<Longrightarrow>
   length (pool_of_files st') = length (pool_of_files st) + length ds \<and>
   obs_id st' = obs_id st + int (length ds)"
proof (induction ds arbitrary: st)
  case Nil
  then show ?case by simp
next
  case (Cons d ds)
  then show ?case
    by (auto split: outcome.splits dest!: dummy_body_grows)
qed

lemma x_loop_grows:
  "x_loop e xs st = Return u st' \<Longrightarrow>
   length (pool_of_files st') = length (pool_of_files st) + 4 * length xs \<and>
   obs_id st' = obs_id st + 4 * int (length xs)"
proof (induction xs arbitrary: st)
  case Nil
  then show ?case by simp
next
  case (Cons x xs)
  from Cons.prems obtain st1 where
    d: "dither_loop e x [1, 2, 3, 4] st = Return () st1" and
    r: "x_loop e xs st1 = Return u st'"
    by (auto simp del: dither_loop.simps split: outcome.splits)
  from dither_loop_grows [OF d] Cons.IH [OF r] show ?case
    by simp
qed

lemma refill_nonempty:
  assumes "get_new_input_files e st = Some (Return u st1)"
  shows "pool_of_files st1 \<noteq> []"
proof (cases "generate_dummy_files st")
  case True
  with assms have "x_loop e [0, 1, 2, 3, 4, 5, 6, 7, 8, 9] st = Return u st1"
    by (simp add: get_new_input_files_def)
  from x_loop_grows [OF this] show ?thesis by auto
next
  case False
  with assms have "scan_loop e st = Some st1"
    by (auto simp: get_new_input_files_def)
  then show ?thesis by (rule scan_loop_nonempty)
qed

text \<open>
  C8. \<^verbatim>\<open>get_task\<close> on an empty pool refills once and then pops: its outcome is that of
  \<^verbatim>\<open>pop(0)\<close> and the lines after it in the state the one refill left. A refill that
  returns leaves a pool that is not empty, in directory-scan mode as in synthetic mode (40
  names there), so the pop finds an item and the call succeeds with the first name of the
  refilled pool; the \<^verbatim>\<open>IndexError\<close> of an empty pool cannot follow a refill.
\<close>

theorem get_task_on_empty_pool:
  assumes empty: "pool_of_files st = []"
    and refill: "get_new_input_files e st = Some (Return u st1)"
  shows "pool_of_files st1 \<noteq> [] \<and>
         do_get_task e st = Some (issue_task e st1) \<and>
         (\<exists>r st2. issue_task e st1 = Return r st2 \<and>
            given_file (Return r st2) = Some (hd (pool_of_files st1)) \<and>
            pool_of_files st2 = tl (pool_of_files st1)) \<and>
         (generate_dummy_files st \<longrightarrow>
            length (pool_of_files st1) = 40 \<and> obs_id st1 = obs_id st + 40)"
proof -
  have ne: "pool_of_files st1 \<noteq> []"
    using refill by (rule refill_nonempty)
  then obtain f rest where fr: "pool_of_files st1 = f # rest"
    by (cases "pool_of_files st1") auto
  have call: "do_get_task e st = Some (issue_task e st1)"
    using empty refill by (simp add: do_get_task_def)
  have issue: "\<exists>r st2. issue_task e st1 = Return r st2 \<and>
            given_file (Return r st2) = Some (hd (pool_of_files st1)) \<and>
            pool_of_files st2 = tl (pool_of_files st1)"
    using issue_task_Cons [OF fr, of e] fr by (simp add: in_file_derive_task)
  have dummy: "generate_dummy_files st \<longrightarrow>
            length (pool_of_files st1) = 40 \<and> obs_id st1 = obs_id st + 40"
  proof
    assume "generate_dummy_files st"
    with refill have "x_loop e [0, 1, 2, 3, 4, 5, 6, 7, 8, 9] st = Return u st1"
      by (simp add: get_new_input_files_def)
    from x_loop_grows [OF this] empty
    show "length (pool_of_files st1) = 40 \<and> obs_id st1 = obs_id st + 40" by simp
  qed
  from ne call issue dummy show ?thesis by blast
qed

theorem get_task_on_empty_pool_witness:
  "pool_of_files (demo_state\<lparr>pool_of_files := []\<rparr>) = [] \<and>
   get_new_input_files demo_env (demo_state\<lparr>pool_of_files := []\<rparr>) =
     Some (Return () (demo_state\<lparr>pool_of_files := [''a.fits'', ''b.fits''], glob_calls := 3\<rparr>)) \<and>
   do_get_task demo_env (demo_state\<lparr>pool_of_files := []\<rparr>) =
     Some (issue_task demo_env
             (demo_state\<lparr>pool_of_files := [''a.fits'', ''b.fits''], glob_calls := 3\<rparr>)) \<and>
   given_file (issue_task demo_env
             (demo_state\<lparr>pool_of_files := [''a.fits'', ''b.fits''], glob_calls := 3\<rparr>)) =
     Some ''a.fits''"
proof -
  have 1: "pool_of_files (demo_state\<lparr>pool_of_files := []\<rparr>) = []"
    by simp
  have 2: "get_new_input_files demo_env (demo_state\<lparr>pool_of_files := []\<rparr>) =
     Some (Return () (demo_state\<lparr>pool_of_files := [''a.fits'', ''b.fits''], glob_calls := 3\<rparr>))"
    by code_simp
  from get_task_on_empty_pool [OF 1 2] 1 2 show ?thesis
    by auto
qed

subsection \<open>Ending tasks\<close>

text \<open>
  An identifier issued by \<^verbatim>\<open>get_task\<close> is in the registry, with the file that was
  handed out.
\<close>

lemma issue_task_registers:
  assumes "pool_of_files st = f # rest" and "issue_task e st = Return r st'"
  shows "map_of (task_inputs st') (task_id (derive_task (clock e (clock_calls st)) f)) = Some f \<and>
         body r = Json_body (derive_task (clock e (clock_calls st)) f)"
  using assms by (auto simp: issue_task_def Let_def update_conv')

lemma map_of_rename:
  "src \<noteq> dst \<Longrightarrow>
   map_of (AList.update dst c (AList.delete src al)) =
     (map_of al)(src := None, dst \<mapsto> c)"
  by (simp add: update_conv' delete_conv')

text \<open>
  C3. \<^verbatim>\<open>end_task\<close> with an identifier of the registry, whose file is in the input
  directory (and with a processed directory to take it), answers 200 without a body and
  renames the registered file: afterwards the file is at the processed path with the
  content it had, the input path is gone, every other path is as before, and the registry
  is as before.
\<close>

theorem end_task_moves_file:
  assumes reg: "map_of (task_inputs st) tid = Some f"
    and src: "map_of (fs_files st) (''./input/'' @ f) = Some c"
    and dst: "can_create st (''./processed/'' @ f)"
  shows "\<exists>st'. do_end_task tid st = Return (send_content 200 ''text/html'' False) st' \<and>
           status (send_content 200 ''text/html'' False) = 200 \<and>
           body (send_content 200 ''text/html'' False) = No_body \<and>
           map_of (fs_files st') (''./processed/'' @ f) = Some c \<and>
           map_of (fs_files st') (''./input/'' @ f) = None \<and>
           (\<forall>p. p \<noteq> ''./input/'' @ f \<and> p \<noteq> ''./processed/'' @ f \<longrightarrow>
                map_of (fs_files st') p = map_of (fs_files st) p) \<and>
           fs_dirs st' = fs_dirs st \<and>
           task_inputs st' = task_inputs st \<and> pool_of_files st' = pool_of_files st"
proof -
  let ?from = "''./input/'' @ f" and ?to = "''./processed/'' @ f"
  let ?st' = "st\<lparr>fs_files := AList.update ?to c (AList.delete ?from (fs_files st))\<rparr>"
  have ne: "?from \<noteq> ?to" by simp
  have "os_rename ?from ?to st = Return () ?st'"
    using src dst ne by (simp add: os_rename_def)
  then have "do_end_task tid st = Return (send_content 200 ''text/html'' False) ?st'"
    using reg by (simp add: do_end_task_def input_files_dir_def processed_files_dir_def)
  moreover have "map_of (fs_files ?st') = (map_of (fs_files st))(?from := None, ?to \<mapsto> c)"
    using ne by (simp add: map_of_rename del: append.simps)
  ultimately show ?thesis
    using ne by (simp add: send_content_def del: append.simps)
qed

theorem end_task_moves_file_witness:
  "map_of (task_inputs demo_state) ''QDTsrv_20200913-122640'' = Some ''z.fits'' \<and>
   map_of (fs_files demo_state) (''./input/'' @ ''z.fits'') = Some (Bytes ''FITS'') \<and>
   can_create demo_state (''./processed/'' @ ''z.fits'') \<and>
   do_end_task ''QDTsrv_20200913-122640'' demo_state =
     Return (send_content 200 ''text/html'' False)
       (demo_state\<lparr>fs_files := [(''./processed/z.fits'', Bytes ''FITS'')]\<rparr>)"
proof -
  have 1: "map_of (task_inputs demo_state) ''QDTsrv_20200913-122640'' = Some ''z.fits''"
    by (simp add: demo_state_def)
  have 2: "map_of (fs_files demo_state) (''./input/'' @ ''z.fits'') = Some (Bytes ''FITS'')"
    by (simp add: demo_state_def)
  have 3: "can_create demo_state (''./processed/'' @ ''z.fits'')"
    by (simp add: demo_state_def can_create_def dirname_def)
  have 4: "do_end_task ''QDTsrv_20200913-122640'' demo_state =
     Return (send_content 200 ''text/html'' False)
       (demo_state\<lparr>fs_files := [(''./processed/z.fits'', Bytes ''FITS'')]\<rparr>)"
    using end_task_moves_file [OF 1 2 3]
    by (simp add: do_end_task_def os_rename_def demo_state_def can_create_def dirname_def
        input_files_dir_def processed_files_dir_def)
  from 1 2 3 4 show ?thesis by blast
qed

text \<open>
  C4, as the code has it. \<^verbatim>\<open>end_task\<close> with an identifier that is not in the registry
  raises \<^verbatim>\<open>KeyError\<close> at the look-up: the handler sends no response, and the registry,
  the pool and the files are as they were.
\<close>

theorem end_task_unknown_id:
  assumes "map_of (task_inputs st) tid = None"
  shows "do_end_task tid st = Raise (KeyError tid) st"
  using assms by (simp add: do_end_task_def)

theorem end_task_unknown_id_witness:
  "map_of (task_inputs demo_state) ''QDTsrv_19700101-000000'' = None \<and>
   do_end_task ''QDTsrv_19700101-000000'' demo_state =
     Raise (KeyError ''QDTsrv_19700101-000000'') demo_state"
proof -
  have 1: "map_of (task_inputs demo_state) ''QDTsrv_19700101-000000'' = None"
    by (simp add: demo_state_def)
  from end_task_unknown_id [OF 1] 1 show ?thesis by simp
qed

text \<open>
  C4, as it is stated, fails: for an identifier that was never issued the handler does not
  return an error response.
\<close>

theorem end_task_unknown_id_no_response:
  "\<not> explicit_error_response (do_end_task ''QDTsrv_19700101-000000'' demo_state)"
  by (simp add: do_end_task_def demo_state_def)

subsection \<open>Derived file names\<close>

text \<open>
  C7. The derivation of \<^verbatim>\<open>out_file\<close> and \<^verbatim>\<open>log_file\<close> is a function of
  \<^verbatim>\<open>in_file\<close>, but not the documented one for every name that ends in \<^verbatim>\<open>.fits\<close>:
  the dot of the patterns \<^verbatim>\<open>'.fits'\<close> and \<^verbatim>\<open>'.json'\<close> matches any character and the
  substitution is not tied to the end of the name. For the input file
  \<^verbatim>\<open>outfits.fits\<close> the documented rule gives \<^verbatim>\<open>outfits.json\<close> and \<^verbatim>\<open>outfits.log\<close>;
  the code gives \<^verbatim>\<open>ou.json.json\<close> and \<^verbatim>\<open>ou.log.log\<close>.
\<close>

theorem out_file_wildcard_dot:
  "out_file_of ''outfits.fits'' = ''ou.json.json'' \<and>
   out_file_of ''outfits.fits'' \<noteq> ''outfits.json'' \<and>
   log_file_of (out_file_of ''outfits.fits'') = ''ou.log.log''"
  by code_simp

text \<open>
  C10. The two scripts do not derive the same descriptor: \<^verbatim>\<open>orig/webserver2.py\<close>
  looks for the tag \<^verbatim>\<open>LE1_VIS\<close> in \<^verbatim>\<open>out_file\<close>, where the first substitution has
  already turned it into \<^verbatim>\<open>LE1-VIS\<close>, so its log file name never gets the
  \<^verbatim>\<open>-LOG\<close> tag. Identifier and output file agree, the log file does not.
\<close>

theorem orig_log_file_differs:
  "task_id (derive_task 1600000000 ''EUC_LE1_VIS-W-12000-1_20200101T000000.0Z.fits'') =
     task_id (orig_derive_task 1600000000 ''EUC_LE1_VIS-W-12000-1_20200101T000000.0Z.fits'') \<and>
   out_file (derive_task 1600000000 ''EUC_LE1_VIS-W-12000-1_20200101T000000.0Z.fits'') =
     out_file (orig_derive_task 1600000000 ''EUC_LE1_VIS-W-12000-1_20200101T000000.0Z.fits'') \<and>
   log_file (derive_task 1600000000 ''EUC_LE1_VIS-W-12000-1_20200101T000000.0Z.fits'') =
     ''EUC_QLA_LE1-VIS-LOG-W-12000-1_20200101T000000.0Z.log'' \<and>
   log_file (orig_derive_task 1600000000 ''EUC_LE1_VIS-W-12000-1_20200101T000000.0Z.fits'') =
     ''EUC_QLA_LE1-VIS-W-12000-1_20200101T000000.0Z.log''"
  by code_simp

subsection \<open>Uploads\<close>

lemma readline_Nil: "readline [] = ([], [])"
  by (simp add: readline_def)

lemma readline_eof:
  "dropWhile (\<lambda>c. c \<noteq> newline) s = [] \<Longrightarrow> readline s = (s, [])"
  unfolding readline_def by (simp only: list.case)

lemma readline_line:
  "dropWhile (\<lambda>c. c \<noteq> newline) s = c # rest \<Longrightarrow>
   readline s = (takeWhile (\<lambda>c. c \<noteq> newline) s @ [newline], rest)"
proof -
  assume a: "dropWhile (\<lambda>c. c \<noteq> newline) s = c # rest"
  then have "dropWhile (\<lambda>c. c \<noteq> newline) s \<noteq> []"
    by simp
  from hd_dropWhile [OF this] a have "c = newline"
    by simp
  with a show ?thesis
    unfolding readline_def by (simp only: list.case)
qed

lemma readline_length: "length (fst (readline s)) + length (snd (readline s)) = length s"
proof (cases "dropWhile (\<lambda>c. c \<noteq> newline) s")
  case Nil
  then show ?thesis by (simp only: readline_eof fst_conv snd_conv list.size add_0_right)
next
  case (Cons c rest)
  have "length (takeWhile (\<lambda>c. c \<noteq> newline) s) + length (dropWhile (\<lambda>c. c \<noteq> newline) s) = length s"
    by (metis length_append takeWhile_dropWhile_id)
  then have "length (takeWhile (\<lambda>c. c \<noteq> newline) s) + Suc (length rest) = length s"
    by (simp add: Cons)
  then show ?thesis
    by (simp add: readline_line [OF Cons])
qed

lemma readline_more:
  assumes "snd (readline s) \<noteq> []"
  shows "fst (readline s) = takeWhile (\<lambda>c. c \<noteq> newline) s @ [newline]"
proof (cases "dropWhile (\<lambda>c. c \<noteq> newline) s")
  case Nil
  with assms show ?thesis by (simp only: readline_eof snd_conv)
next
  case (Cons c rest)
  then show ?thesis by (simp only: readline_line fst_conv)
qed

lemma contains_Nil: "contains b [] = (b = [])"
  by simp

lemma strip_pending_newline:
  "strip_pending (p @ [newline]) = (if p \<noteq> [] \<and> last p = carriage_return then butlast p else p)"
  by (simp add: strip_pending_def)

lemma upload_loop_boundary:
  assumes "0 < remain" and "contains b (fst (readline rf))"
  shows "upload_loop b remain preline rf written = Some (True, written @ strip_pending preline)"
  using assms by (subst upload_loop.simps) simp

lemma pending_then_boundary:
  assumes b: "b \<noteq> []" and r: "0 < remain"
    and c: "contains b (fst (readline (snd (readline s))))"
  shows "\<exists>p. fst (readline s) = p @ [newline] \<and>
           upload_loop b remain (fst (readline s)) (snd (readline s)) written =
             Some (True, written @ (if p \<noteq> [] \<and> last p = carriage_return then butlast p else p))"
proof -
  have "snd (readline s) \<noteq> []"
  proof
    assume "snd (readline s) = []"
    with c have "contains b []" by (simp add: readline_Nil)
    with b show False by simp
  qed
  then have p: "fst (readline s) = takeWhile (\<lambda>c. c \<noteq> newline) s @ [newline]"
    by (rule readline_more)
  have "upload_loop b remain (fst (readline s)) (snd (readline s)) written =
          Some (True, written @ strip_pending (fst (readline s)))"
    using r c by (rule upload_loop_boundary)
  with p show ?thesis
    by (simp add: strip_pending_newline)
qed

text \<open>The upload of the specification's example, run through the parser.\<close>

lemma hello_upload:
  "deal_post_data hello_request upload_state =
     Some (Return (True, msg_success ''/srv/upload/a.txt'')
             (upload_state\<lparr>fs_files := [(''/srv/upload/a.txt'', Bytes ''HELLO'')]\<rparr>))"
  by code_simp

text \<open>
  C2. For the body \<^verbatim>\<open>--B\r\n\<close>,
  \<^verbatim>\<open>Content-Disposition: form-data; name="file"; filename="a.txt"\r\n\<close>, \<^verbatim>\<open>\r\n\<close>,
  \<^verbatim>\<open>HELLO\r\n\<close>, \<^verbatim>\<open>--B--\r\n\<close> with boundary \<^verbatim>\<open>B\<close> and the matching
  \<^verbatim>\<open>Content-Length\<close>, the parser reports success and the destination file holds
  exactly \<^verbatim>\<open>HELLO\<close>. In general, for a boundary that is not empty: when the line read
  after the pending line contains the boundary, the pending line ends in a newline, and what
  is written last is the pending line without that newline and without a carriage return
  before it.
\<close>

theorem upload_hello:
  "deal_post_data hello_request upload_state =
     Some (Return (True, msg_success ''/srv/upload/a.txt'')
             (upload_state\<lparr>fs_files := [(''/srv/upload/a.txt'', Bytes ''HELLO'')]\<rparr>)) \<and>
   (b \<noteq> [] \<and> 0 < remain \<and> contains b (fst (readline (snd (readline s)))) \<longrightarrow>
     (\<exists>p. fst (readline s) = p @ [newline] \<and>
           upload_loop b remain (fst (readline s)) (snd (readline s)) written =
             Some (True, written @ (if p \<noteq> [] \<and> last p = carriage_return then butlast p else p))))"
  using hello_upload pending_then_boundary by blast

theorem upload_hello_witness:
  "''B'' \<noteq> [] \<and> (0::int) < 7 \<and>
   contains ''B'' (fst (readline (snd (readline (after_lines 3 hello_body))))) \<and>
   (\<exists>p. fst (readline (after_lines 3 hello_body)) = p @ [newline] \<and>
        upload_loop ''B'' 7 (fst (readline (after_lines 3 hello_body)))
          (snd (readline (after_lines 3 hello_body))) [] =
        Some (True, [] @ (if p \<noteq> [] \<and> last p = carriage_return then butlast p else p))) \<and>
   upload_loop ''B'' 7 (fst (readline (after_lines 3 hello_body)))
          (snd (readline (after_lines 3 hello_body))) [] = Some (True, ''HELLO'')"
proof -
  have 1: "''B'' \<noteq> [] \<and> (0::int) < 7 \<and>
      contains ''B'' (fst (readline (snd (readline (after_lines 3 hello_body)))))"
    by code_simp
  have 2: "upload_loop ''B'' 7 (fst (readline (after_lines 3 hello_body)))
          (snd (readline (after_lines 3 hello_body))) [] = Some (True, ''HELLO'')"
    by code_simp
  from upload_hello [of "''B''" 7 "after_lines 3 hello_body" "[]"] 1 2 show ?thesis
    by blast
qed

text \<open>
  C5. When the first line of the body does not contain the boundary, the parser returns the
  failure \<^verbatim>\<open>Content NOT begin with boundary\<close> and the files are as before: the
  destination is neither opened nor created.
\<close>

theorem missing_boundary:
  assumes "boundary_of rq = Inr b" and "content_length rq = Inr n"
    and "\<not> contains b (fst (readline (rfile rq)))"
  shows "deal_post_data rq st = Some (Return (False, msg_no_boundary) st)"
  unfolding deal_post_data_def using assms
  by (simp only: sum.case Let_def not_False_eq_True if_True)

theorem missing_boundary_witness:
  "boundary_of (hello_request\<lparr>plisttext := ''; boundary=XYZ''\<rparr>) = Inr ''XYZ'' \<and>
   content_length (hello_request\<lparr>plisttext := ''; boundary=XYZ''\<rparr>) = Inr 84 \<and>
   \<not> contains ''XYZ'' (fst (readline (rfile (hello_request\<lparr>plisttext := ''; boundary=XYZ''\<rparr>)))) \<and>
   deal_post_data (hello_request\<lparr>plisttext := ''; boundary=XYZ''\<rparr>) upload_state =
     Some (Return (False, ''Content NOT begin with boundary'') upload_state)"
proof -
  have 1: "boundary_of (hello_request\<lparr>plisttext := ''; boundary=XYZ''\<rparr>) = Inr ''XYZ''"
    by code_simp
  have 2: "content_length (hello_request\<lparr>plisttext := ''; boundary=XYZ''\<rparr>) = Inr 84"
    by (simp add: hello_request_def)
  have 3: "\<not> contains ''XYZ'' (fst (readline (rfile (hello_request\<lparr>plisttext := ''; boundary=XYZ''\<rparr>))))"
    by code_simp
  from missing_boundary [OF 1 2 3, of upload_state] 1 2 3 show ?thesis
    by (simp add: msg_no_boundary_def)
qed


lemma upload_loop_truncated:
  "remain \<le> int (length rf) \<Longrightarrow>
   \<forall>l \<in> set (lines_upto remain rf). \<not> contains b l \<Longrightarrow>
   \<exists>w'. upload_loop b remain pre rf w = Some (False, w')"
proof (induction remain rf arbitrary: pre w rule: lines_upto.induct)
  case (1 remain rf)
  show ?case
  proof (cases "remain > 0")
    case False
    then show ?thesis by (subst upload_loop.simps) simp
  next
    case True
    with "1.prems"(1) have ne: "rf \<noteq> []" by auto
    let ?l = "fst (readline rf)" and ?r = "snd (readline rf)"
    have lu: "lines_upto remain rf = ?l # lines_upto (remain - int (length ?l)) ?r"
      using True ne by (subst lines_upto.simps) simp
    have nb: "\<not> contains b ?l"
      using "1.prems"(2) lu by simp
    have rest: "\<forall>l \<in> set (lines_upto (remain - int (length ?l)) ?r). \<not> contains b l"
      using "1.prems"(2) lu by simp
    have len: "remain - int (length ?l) \<le> int (length ?r)"
      using "1.prems"(1) readline_length [of rf] by linarith
    from True ne have c: "0 < remain \<and> rf \<noteq> []" by simp
    from "1.IH" [OF c len rest] obtain w' where
      "upload_loop b (remain - int (length ?l)) ?l ?r (w @ pre) = Some (False, w')"
      by blast
    then show ?thesis
      using True nb by (subst upload_loop.simps) simp
  qed
qed

lemma after_lines_1: "after_lines 1 s = snd (readline s)"
  by simp

lemma after_lines_4:
  "after_lines 4 s = snd (readline (snd (readline (snd (readline (snd (readline s)))))))"
  by (simp add: eval_nat_numeral)

text \<open>
  C6. Once the parser is in its copying loop (the first line holds the boundary, the second
  one names the file, the destination can be created): when the body holds the declared
  number of bytes and no line read before that count is used up contains the boundary, the
  parser returns the failure \<^verbatim>\<open>Unexpect Ends of data.\<close>, not success.
\<close>

theorem truncated_body:
  assumes bd: "boundary_of rq = Inr b" and cl: "content_length rq = Inr n"
    and first: "contains b (fst (readline (rfile rq)))"
    and name: "find_filename (fst (readline (after_lines 1 (rfile rq)))) = Some name"
    and dest: "can_create st (path_join (translated_path rq) name)"
    and enough: "n \<le> int (length (rfile rq))"
    and none: "\<forall>l \<in> set (lines_upto
                   (n - int (length (rfile rq) - length (after_lines 4 (rfile rq))))
                   (after_lines 4 (rfile rq))). \<not> contains b l"
  shows "\<exists>written. deal_post_data rq st =
           Some (Return (False, msg_unexpected_end)
                   (write_file (path_join (translated_path rq) name) (Bytes written)
                      (write_file (path_join (translated_path rq) name) (Bytes []) st)))"
proof -
  let ?rf = "rfile rq"
  let ?l1 = "fst (readline ?rf)" and ?r1 = "snd (readline ?rf)"
  let ?l2 = "fst (readline ?r1)" and ?r2 = "snd (readline ?r1)"
  let ?l3 = "fst (readline ?r2)" and ?r3 = "snd (readline ?r2)"
  let ?l4 = "fst (readline ?r3)" and ?r4 = "snd (readline ?r3)"
  let ?remain = "n - int (length ?l1) - int (length ?l2) - int (length ?l3) - int (length ?l4)"
  have r4: "after_lines 4 ?rf = ?r4" by (rule after_lines_4)
  have total: "length ?l1 + length ?l2 + length ?l3 + length ?l4 + length ?r4 = length ?rf"
    using readline_length [of ?rf] readline_length [of ?r1] readline_length [of ?r2]
      readline_length [of ?r3] by linarith
  then have consumed: "int (length ?rf - length ?r4) =
      int (length ?l1) + int (length ?l2) + int (length ?l3) + int (length ?l4)"
    by linarith
  have rem: "n - int (length ?rf - length ?r4) = ?remain"
    using consumed by linarith
  have le: "?remain \<le> int (length ?r4)"
    using enough total by linarith
  have "\<forall>l \<in> set (lines_upto ?remain ?r4). \<not> contains b l"
    using none unfolding r4 rem .
  from upload_loop_truncated [OF le this] obtain w' where
    loop: "upload_loop b ?remain ?l4 ?r4 [] = Some (False, w')"
    by blast
  have name': "find_filename ?l2 = Some name"
    using name by (simp only: after_lines_1)
  have "deal_post_data rq st =
           Some (Return (False, msg_unexpected_end)
                   (write_file (path_join (translated_path rq) name) (Bytes w')
                      (write_file (path_join (translated_path rq) name) (Bytes []) st)))"
    unfolding deal_post_data_def
    by (simp only: bd cl first name' dest loop sum.case Let_def not_True_eq_False if_False
          option.case prod.case bool.case)
  then show ?thesis by blast
qed

theorem truncated_body_witness:
  "boundary_of short_request = Inr ''B'' \<and> content_length short_request = Inr 78 \<and>
   contains ''B'' (fst (readline (rfile short_request))) \<and>
   find_filename (fst (readline (after_lines 1 (rfile short_request)))) = Some ''a.txt'' \<and>
   can_create upload_state (path_join (translated_path short_request) ''a.txt'') \<and>
   78 \<le> int (length (rfile short_request)) \<and>
   lines_upto (78 - int (length (rfile short_request) - length (after_lines 4 (rfile short_request))))
       (after_lines 4 (rfile short_request)) = [''WORLD'' @ crlf] \<and>
   \<not> contains ''B'' (''WORLD'' @ crlf) \<and>
   (\<exists>written. deal_post_data short_request upload_state =
      Some (Return (False, ''Unexpect Ends of data.'')
              (write_file ''/srv/upload/a.txt'' (Bytes written)
                 (write_file ''/srv/upload/a.txt'' (Bytes []) upload_state))))"
proof -
  have 1: "boundary_of short_request = Inr ''B''" by code_simp
  have 2: "content_length short_request = Inr 78" by (simp add: short_request_def)
  have 3: "contains ''B'' (fst (readline (rfile short_request)))" by code_simp
  have 4: "find_filename (fst (readline (after_lines 1 (rfile short_request)))) = Some ''a.txt''"
    by code_simp
  have p: "path_join (translated_path short_request) ''a.txt'' = ''/srv/upload/a.txt''"
    by code_simp
  have 5: "can_create upload_state (path_join (translated_path short_request) ''a.txt'')"
    by code_simp
  have 6: "78 \<le> int (length (rfile short_request))" by code_simp
  have 7: "lines_upto (78 - int (length (rfile short_request) - length (after_lines 4 (rfile short_request))))
       (after_lines 4 (rfile short_request)) = [''WORLD'' @ crlf]"
    by code_simp
  have 8: "\<not> contains ''B'' (''WORLD'' @ crlf)" by code_simp
  have 9: "\<forall>l \<in> set (lines_upto
             (78 - int (length (rfile short_request) - length (after_lines 4 (rfile short_request))))
             (after_lines 4 (rfile short_request))). \<not> contains ''B'' l"
    unfolding 7 using 8 by simp
  from truncated_body [OF 1 2 3 4 5 6 9] have
    "\<exists>written. deal_post_data short_request upload_state =
      Some (Return (False, ''Unexpect Ends of data.'')
              (write_file ''/srv/upload/a.txt'' (Bytes written)
                 (write_file ''/srv/upload/a.txt'' (Bytes []) upload_state)))"
    unfolding p msg_unexpected_end_def .
  with 1 2 3 4 5 6 7 8 show ?thesis by blast
qed


end
